theory Spec2Isabelle
  imports Complex_Main
begin

section \<open>Complex number operands\<close>

text \<open>
  The library represents a complex number as an object with the two Number fields
  \<open>"imaginary"\<close> and \<open>"real"\<close>. Numbers are modelled as mathematical reals: rounding,
  overflow to Infinity and NaN of IEEE doubles are outside the model, except where a
  definition below says how an undefined Number is represented.
\<close>

record complex_js =
  imaginary :: real
  real_c :: real

definition add :: "complex_js \<Rightarrow> complex_js \<Rightarrow> complex_js" where
  "add complex1 complex2 =
     \<lparr>imaginary = imaginary complex1 + imaginary complex2,
      real_c = real_c complex1 + real_c complex2\<rparr>"

definition multiply :: "complex_js \<Rightarrow> complex_js \<Rightarrow> complex_js" where
  "multiply complex1 complex2 =
     \<lparr>imaginary = real_c complex1 * imaginary complex2 + imaginary complex1 * real_c complex2,
      real_c = real_c complex1 * real_c complex2 - imaginary complex1 * imaginary complex2\<rparr>"

definition magnitude2 :: "complex_js \<Rightarrow> real" where
  "magnitude2 c = imaginary c * imaginary c + real_c c * real_c c"

section \<open>The iterated equation\<close>

text \<open>
  \<open>eval\<close> of the documented library (version 1.0): \<open>P(z) = z^2 + c\<close>. The line taking
  absolute values is commented out there.
\<close>

definition eval :: "complex_js \<Rightarrow> complex_js \<Rightarrow> complex_js" where
  "eval variable constant = (let mult = multiply variable variable in add constant mult)"

text \<open>
  \<open>eval\<close> of the earlier file \<open>src/fractals.js\<close>: the same function with the absolute
  value of each component taken first.
\<close>

definition eval_abs :: "complex_js \<Rightarrow> complex_js \<Rightarrow> complex_js" where
  "eval_abs variable constant =
     (let z = \<lparr>imaginary = \<bar>imaginary variable\<bar>, real_c = \<bar>real_c variable\<bar>\<rparr>;
          mult = multiply z z
      in add constant mult)"

section \<open>The escape-time loop\<close>

definition threshold :: real where
  "threshold = 4"

text \<open>
  The \<open>while\<close> loop of \<open>graph\<close> for one point: the state is \<open>z\<close>, \<open>count\<close> and \<open>m\<close>;
  the loop returns \<open>count\<close> and \<open>m\<close>, which the coloring reads afterwards.
\<close>

function escape_loop :: "nat \<Rightarrow> complex_js \<Rightarrow> complex_js \<Rightarrow> nat \<Rightarrow> real \<Rightarrow> nat \<times> real" where
  "escape_loop max_iter c z count m =
     (if m < threshold \<and> count < max_iter
      then (let z' = eval z c in escape_loop max_iter c z' (count + 1) (magnitude2 z'))
      else (count, m))"
  by pat_completeness auto
termination
  by (relation "measure (\<lambda>(max_iter, c, z, count, m). max_iter - count)") auto

declare escape_loop.simps [simp del]

definition escape :: "complex_js \<Rightarrow> nat \<Rightarrow> nat \<times> real" where
  "escape c max_iter = escape_loop max_iter c \<lparr>imaginary = 0, real_c = 0\<rparr> 0 0"

section \<open>Colors\<close>

text \<open>
  A Color is the string \<open>#RRGGBB\<close>. The functions below are the string and number
  primitives of the language that \<open>linear_interpolate\<close> and \<open>palette\<close> call, on
  strings of ASCII characters.

  \<open>toString16\<close> is \<open>Number.prototype.toString(16)\<close> on a non-negative integer.
\<close>

definition hex_digit :: "nat \<Rightarrow> char" where
  "hex_digit d = ''0123456789abcdef'' ! d"

fun toString16 :: "nat \<Rightarrow> string" where
  "toString16 n =
     (if n < 16 then [hex_digit n] else toString16 (n div 16) @ [hex_digit (n mod 16)])"

declare toString16.simps [simp del]

text \<open>
  \<open>parseInt16\<close> is \<open>parseInt(s, 16)\<close>: leading white space is skipped, then an optional
  sign, then an optional \<open>0x\<close> or \<open>0X\<close>, then the longest run of hexadecimal digits
  is read; with no digit the result is NaN, here \<open>None\<close>.
\<close>

definition digit_val :: "char \<Rightarrow> nat option" where
  "digit_val ch =
     (let k = (of_char ch :: nat) in
      if 48 \<le> k \<and> k \<le> 57 then Some (k - 48)
      else if 97 \<le> k \<and> k \<le> 102 then Some (k - 87)
      else if 65 \<le> k \<and> k \<le> 70 then Some (k - 55)
      else None)"

fun hex_prefix :: "string \<Rightarrow> nat list" where
  "hex_prefix [] = []"
| "hex_prefix (ch # s) = (case digit_val ch of Some d \<Rightarrow> d # hex_prefix s | None \<Rightarrow> [])"

definition hex_value :: "nat list \<Rightarrow> nat" where
  "hex_value ds = foldl (\<lambda>a d. 16 * a + d) 0 ds"

definition js_whitespace :: "char \<Rightarrow> bool" where
  "js_whitespace ch = ((of_char ch :: nat) \<in> {9, 10, 11, 12, 13, 32})"

definition parseInt16 :: "string \<Rightarrow> int option" where
  "parseInt16 s =
     (let t = dropWhile js_whitespace s;
          sign = (if take 1 t = ''-'' then - 1 else 1);
          u = (if take 1 t = ''-'' \<or> take 1 t = ''+'' then drop 1 t else t);
          v = (if take 2 u = ''0x'' \<or> take 2 u = ''0X'' then drop 2 u else u);
          ds = hex_prefix v
      in if ds = [] then None else Some (sign * int (hex_value ds)))"

text \<open>\<open>s.substring(a, b)\<close> for constant \<open>a \<le> b\<close>: both ends are cut at the length.\<close>

definition substring :: "string \<Rightarrow> nat \<Rightarrow> nat \<Rightarrow> string" where
  "substring s a b = take (b - a) (drop a s)"

text \<open>
  \<open>linear_interpolate\<close> runs the same four lines on each of the three channels;
  \<open>interpolate_channel\<close> is these lines: parse both substrings, take
  \<open>Math.floor(Math.abs(c1 + slope*(c2 - c1))).toString(16)\<close> (the string \<open>NaN\<close> when a
  parse gave NaN), and put a \<open>0\<close> in front unless the length is 2.
\<close>

definition interpolate_channel :: "string \<Rightarrow> string \<Rightarrow> real \<Rightarrow> string" where
  "interpolate_channel s1 s2 slope =
     (let c1 = parseInt16 s1;
          c2 = parseInt16 s2;
          r = (case (c1, c2) of
                 (Some v1, Some v2) \<Rightarrow>
                   toString16
                     (nat \<lfloor>\<bar>real_of_int v1 + slope * (real_of_int v2 - real_of_int v1)\<bar>\<rfloor>)
               | _ \<Rightarrow> ''NaN'')
      in if length r = 2 then r else ''0'' @ r)"

definition linear_interpolate :: "string \<Rightarrow> string \<Rightarrow> real \<Rightarrow> string" where
  "linear_interpolate color1 color2 slope =
     (let r = interpolate_channel (substring color1 1 3) (substring color2 1 3) slope;
          g = interpolate_channel (substring color1 3 5) (substring color2 3 5) slope;
          b = interpolate_channel (substring color1 5 7) (substring color2 5 7) slope
      in ''#'' @ r @ g @ b)"

text \<open>
  Above, a Number is a real and the arithmetic is exact. The Numbers of the language
  are double-precision floats: every arithmetic operation returns the double nearest
  to the exact result. In \<open>c1 + slope*(c2 - c1)\<close> three operations are rounded; the
  definitions below are the same lines of \<open>linear_interpolate\<close> with each of them
  passed through \<open>rnd\<close>, the rounding of the arithmetic (\<open>Math.abs\<close> and
  \<open>Math.floor\<close> are exact). \<open>computed_channel\<close> is the argument of \<open>Math.floor\<close>.
  With \<open>rnd\<close> the identity they are the definitions above.
\<close>

definition computed_channel :: "(real \<Rightarrow> real) \<Rightarrow> int \<Rightarrow> int \<Rightarrow> real \<Rightarrow> real" where
  "computed_channel rnd c1 c2 slope =
     \<bar>rnd (real_of_int c1 + rnd (slope * rnd (real_of_int c2 - real_of_int c1)))\<bar>"

definition interpolate_channel_rounding ::
  "(real \<Rightarrow> real) \<Rightarrow> string \<Rightarrow> string \<Rightarrow> real \<Rightarrow> string" where
  "interpolate_channel_rounding rnd s1 s2 slope =
     (let c1 = parseInt16 s1;
          c2 = parseInt16 s2;
          r = (case (c1, c2) of
                 (Some v1, Some v2) \<Rightarrow> toString16 (nat \<lfloor>computed_channel rnd v1 v2 slope\<rfloor>)
               | _ \<Rightarrow> ''NaN'')
      in if length r = 2 then r else ''0'' @ r)"

definition linear_interpolate_rounding ::
  "(real \<Rightarrow> real) \<Rightarrow> string \<Rightarrow> string \<Rightarrow> real \<Rightarrow> string" where
  "linear_interpolate_rounding rnd color1 color2 slope =
     (let r = interpolate_channel_rounding rnd (substring color1 1 3) (substring color2 1 3) slope;
          g = interpolate_channel_rounding rnd (substring color1 3 5) (substring color2 3 5) slope;
          b = interpolate_channel_rounding rnd (substring color1 5 7) (substring color2 5 7) slope
      in ''#'' @ r @ g @ b)"

text \<open>
  Well-formed Colors, the three channel values of a Color string, and its lower-case
  form (the library prints lower-case digits).
\<close>

definition is_hex :: "char \<Rightarrow> bool" where
  "is_hex ch = (digit_val ch \<noteq> None)"

definition is_color :: "string \<Rightarrow> bool" where
  "is_color s = (length s = 7 \<and> hd s = CHR ''#'' \<and> list_all is_hex (tl s))"

definition channels :: "string \<Rightarrow> int option \<times> int option \<times> int option" where
  "channels s =
     (parseInt16 (substring s 1 3), parseInt16 (substring s 3 5), parseInt16 (substring s 5 7))"

definition lower_hex :: "char \<Rightarrow> char" where
  "lower_hex ch = (case digit_val ch of Some d \<Rightarrow> hex_digit d | None \<Rightarrow> ch)"

definition lowercase :: "string \<Rightarrow> string" where
  "lowercase s = map lower_hex s"


section \<open>The palette\<close>

text \<open>
  An array is a list of slots; a slot never assigned (a hole of \<open>new Array(n)\<close>) is
  \<open>None\<close>, and so is what an index outside the array reads: \<open>undefined\<close>.
\<close>

definition js_index :: "'a option list \<Rightarrow> int \<Rightarrow> 'a option" where
  "js_index xs i = (if 0 \<le> i \<and> i < int (length xs) then xs ! nat i else None)"

definition end_color :: string where
  "end_color = ''#773399''"

definition mid_color :: string where
  "mid_color = ''#CCAA66''"

text \<open>The \<open>for\<close> loop of \<open>palette\<close> (documented library), with its counter \<open>i\<close>.\<close>

function palette_loop :: "nat \<Rightarrow> real \<Rightarrow> nat \<Rightarrow> string option list \<Rightarrow> string option list" where
  "palette_loop max_iter factor i colors =
     (if i < max_iter
      then palette_loop max_iter factor (i + 1)
             (colors[i := Some (linear_interpolate end_color mid_color (sin (real i * factor)))])
      else colors)"
  by pat_completeness auto
termination
  by (relation "measure (\<lambda>(max_iter, factor, i, colors). max_iter - i)") auto

declare palette_loop.simps [simp del]

definition palette :: "nat \<Rightarrow> string option list" where
  "palette max_iter =
     (let colors = replicate (max_iter + 1) None;
          factor = pi / (2 * real_of_int (max 1 (int max_iter - 1)));
          colors = palette_loop max_iter factor 0 colors
      in colors[max_iter := Some ''#000000''])"

text \<open>
  \<open>palette\<close> of \<open>src/fractals.js\<close>: entry \<open>i\<close> is cut out of the hexadecimal print of
  \<open>i * colorf\<close>, which is not an integer in general. How the language prints such a
  Number in base 16 is left open: \<open>number_toString16\<close> is a parameter.
\<close>

function palette_hex_loop ::
  "(real \<Rightarrow> string) \<Rightarrow> nat \<Rightarrow> real \<Rightarrow> nat \<Rightarrow> string option list \<Rightarrow> string option list" where
  "palette_hex_loop number_toString16 max_iter colorf i colors =
     (if i < max_iter
      then (let str = ''000000'' @ number_toString16 (real i * colorf)
            in palette_hex_loop number_toString16 max_iter colorf (i + 1)
                 (colors[i := Some (''#'' @ substring str (length str - 7) (length str - 1))]))
      else colors)"
  by pat_completeness auto
termination
  by (relation "measure (\<lambda>(f, max_iter, colorf, i, colors). max_iter - i)") auto

declare palette_hex_loop.simps [simp del]

definition palette_hex :: "(real \<Rightarrow> string) \<Rightarrow> nat \<Rightarrow> string option list" where
  "palette_hex number_toString16 max_iter =
     (let colorf = 256 * 256 * 256 / real max_iter;
          colors = replicate (max_iter + 1) None;
          colors = palette_hex_loop number_toString16 max_iter colorf 0 colors
      in colors[max_iter := Some ''#000000''])"

text \<open>
  \<open>toString16_number\<close> is \<open>Number.prototype.toString(16)\<close> on a non-negative Number:
  the digits of the integer part, then, when the Number is not an integer, a point and
  the digits of the fraction. A double has at most 269 hexadecimal digits after the
  point, so the expansion is cut there. The language may stop earlier, as soon as the
  digits printed identify the double; for a fraction of one digit, such as a half,
  \<open>0.8\<close>, there is nothing to drop.
\<close>

fun hex_fraction :: "nat \<Rightarrow> real \<Rightarrow> string" where
  "hex_fraction k f =
     (if k = 0 \<or> f = 0 then []
      else (let d = nat \<lfloor>16 * f\<rfloor> in hex_digit d # hex_fraction (k - 1) (16 * f - real d)))"

declare hex_fraction.simps [simp del]

definition toString16_number :: "real \<Rightarrow> string" where
  "toString16_number x =
     toString16 (nat \<lfloor>x\<rfloor>)
       @ (if x = of_int \<lfloor>x\<rfloor> then [] else ''.'' @ hex_fraction 269 (x - of_int \<lfloor>x\<rfloor>))"

section \<open>Coloring a point\<close>

text \<open>
  The only exception the per-point code can raise: \<open>linear_interpolate\<close> calls
  \<open>substring\<close> on its arguments, which throws a TypeError when one is \<open>undefined\<close>.
\<close>

datatype js_error = TypeError

text \<open>\<open>x % 1\<close>: the remainder has the sign of \<open>x\<close>.\<close>

definition js_rem1 :: "real \<Rightarrow> real" where
  "js_rem1 x = x - of_int (if 0 \<le> x then \<lfloor>x\<rfloor> else \<lceil>x\<rceil>)"

text \<open>The normalized iteration count \<open>it\<close> of the smooth coloring, for \<open>m > 1\<close>.\<close>

definition normalized_count :: "nat \<Rightarrow> real \<Rightarrow> real" where
  "normalized_count count m =
     (let l2 = ln 2;
          log_zn = ln m / 2;
          nu = ln (log_zn / l2) / l2
      in real count + 1 - nu)"

text \<open>
  The body of the \<open>if\<close> marked ``smooth coloring''. For \<open>m \<le> 1\<close> the Number \<open>it\<close> is
  NaN (\<open>m < 1\<close>: a logarithm of a non-positive Number) or Infinity (\<open>m = 1\<close>), the
  index \<open>Math.floor(it)\<close> reads \<open>undefined\<close>, and \<open>linear_interpolate\<close> throws. An
  index outside the array reads \<open>undefined\<close> as well.
\<close>

definition smooth_color :: "string option list \<Rightarrow> nat \<Rightarrow> real \<Rightarrow> js_error + string option" where
  "smooth_color colors count m =
     (if m \<le> 1 then Inl TypeError
      else (let it = normalized_count count m;
                color = js_index colors \<lfloor>it\<rfloor>;
                color2 = js_index colors (\<lfloor>it\<rfloor> + 1)
            in case (color, color2) of
                 (Some c1, Some c2) \<Rightarrow> Inr (Some (linear_interpolate c1 c2 (js_rem1 it)))
               | _ \<Rightarrow> Inl TypeError))"

text \<open>
  The color of a point from the loop's \<open>count\<close> and \<open>m\<close>: \<open>colors[count]\<close>, replaced by
  the smooth color when \<open>count < max_iter - 1\<close>.
\<close>

definition pixel_color ::
  "string option list \<Rightarrow> nat \<Rightarrow> nat \<Rightarrow> real \<Rightarrow> js_error + string option" where
  "pixel_color colors max_iter count m =
     (let color = js_index colors (int count)
      in if int count < int max_iter - 1 then smooth_color colors count m else Inr color)"

section \<open>The render session\<close>

text \<open>
  The variables \<open>graph\<close> computes once and its timer callback reads: the closure of a
  session. \<open>canvas.width\<close> and \<open>canvas.height\<close> are non-negative integers;
  \<open>Math.round\<close> rounds half up, as \<open>round\<close> does. (For a width or height of 0 the
  scale factors are Infinity or NaN in the language and 0 here; every statement below
  is about positive sizes.)
\<close>

record session =
  max_iter :: nat
  xdiff :: int
  ydiff :: int
  xf :: real
  yf :: real
  xd :: int
  yd :: int
  xc :: real
  yc :: real
  ptw :: int
  colors :: "string option list"

definition graph_session :: "nat \<Rightarrow> nat \<Rightarrow> nat \<Rightarrow> real \<Rightarrow> real \<Rightarrow> real \<Rightarrow> real \<Rightarrow> session" where
  "graph_session width height max_iter' rxmin rxmax rymin rymax =
     (let rangex = rxmax - rxmin;
          rangey = rymax - rymin
      in \<lparr>max_iter = max_iter',
          xdiff = int width,
          ydiff = int height,
          xf = rangex / real width,
          yf = rangey / real height,
          xd = round (real width / 40),
          yd = round (real height / 20),
          xc = rxmax,
          yc = rymax,
          ptw = 1,
          colors = palette max_iter'\<rparr>)"

text \<open>Canvas coordinates to fractal coordinates, and the color of the point there.\<close>

definition pixel_constant :: "session \<Rightarrow> int \<Rightarrow> int \<Rightarrow> complex_js" where
  "pixel_constant s x y =
     (let xac = xf s * real_of_int x - xc s;
          yac = yf s * real_of_int y - yc s
      in \<lparr>imaginary = yac, real_c = xac\<rparr>)"

definition pixel :: "session \<Rightarrow> int \<Rightarrow> int \<Rightarrow> js_error + string option" where
  "pixel s x y =
     (let c = pixel_constant s x y;
          (count, m) = escape c (max_iter s)
      in pixel_color (colors s) (max_iter s) count m)"

text \<open>
  What a session does to the canvas: \<open>clearRect(x, y, w, h)\<close>, and \<open>fillRect(x, y, w, h)\<close>
  with the value just assigned to \<open>fillStyle\<close>.
\<close>

datatype canvas_write = ClearRect int int int int | FillRect int int int int "string option"

text \<open>
  The two nested \<open>for\<close> loops over one subdivision visit the points column by column;
  an exception ends them, and the rest of the callback with them.
\<close>

definition tile_points :: "session \<Rightarrow> int \<Rightarrow> int \<Rightarrow> (int \<times> int) list" where
  "tile_points s xcurr ycurr =
     concat (map (\<lambda>x. map (\<lambda>y. (x, y)) [ycurr..ycurr + yd s - 1]) [xcurr..xcurr + xd s - 1])"

fun paint_points :: "session \<Rightarrow> (int \<times> int) list \<Rightarrow> canvas_write list \<times> js_error option" where
  "paint_points s [] = ([], None)"
| "paint_points s ((x, y) # ps) =
     (case pixel s x y of
        Inl e \<Rightarrow> ([], Some e)
      | Inr color \<Rightarrow>
          (let (ws, r) = paint_points s ps in (FillRect x y (ptw s) (ptw s) color # ws, r)))"

text \<open>
  The cursor \<open>xcurr\<close>, \<open>ycurr\<close>, and one run of the timer callback from it: the new
  cursor, the writes, and how the callback ended. (When it finds the canvas drawn it
  only sets \<open>informer.value\<close>, which is no write to the canvas.)
\<close>

record cursor =
  xcurr :: int
  ycurr :: int

datatype ending = Finished | Drawn | Thrown js_error

definition tick :: "session \<Rightarrow> cursor \<Rightarrow> ending \<times> cursor \<times> canvas_write list" where
  "tick s cur =
     (if xdiff s \<le> xcurr cur \<and> ydiff s \<le> ycurr cur then (Finished, cur, [])
      else (let cur1 = (if xdiff s \<le> xcurr cur
                        then \<lparr>xcurr = 0, ycurr = ycurr cur + yd s\<rparr> else cur);
                clear = ClearRect (xcurr cur1) (ycurr cur1) (xd s) (yd s);
                (ws, r) = paint_points s (tile_points s (xcurr cur1) (ycurr cur1))
            in case r of
                 Some e \<Rightarrow> (Thrown e, cur1, clear # ws)
               | None \<Rightarrow> (Drawn, cur1\<lparr>xcurr := xcurr cur1 + xd s\<rparr>, clear # ws)))"

text \<open>
  The timer fires again and again. \<open>run s n cur\<close> lets it fire up to \<open>n\<close> times from the
  cursor \<open>cur\<close>, stopping at the callback that finds the canvas drawn; it tells whether
  that callback was reached, and lists the writes in order.
\<close>

fun run :: "session \<Rightarrow> nat \<Rightarrow> cursor \<Rightarrow> bool \<times> canvas_write list" where
  "run s 0 cur = (False, [])"
| "run s (Suc n) cur =
     (case tick s cur of
        (Finished, cur', ws) \<Rightarrow> (True, ws)
      | (e, cur', ws) \<Rightarrow> (let (b, ws') = run s n cur' in (b, ws @ ws')))"






section \<open>Timers\<close>

text \<open>
  \<open>graph\<close> starts a session with \<open>setInterval\<close> and returns the timer id; the cursor
  \<open>xcurr\<close>, \<open>ycurr\<close> is assigned without \<open>var\<close>, so it is one pair of global variables
  that every session of the page reads and writes. The page is modelled by the global
  cursor, the live timers with the session each one runs, the next timer id, and the
  writes made so far, each with the id of the timer whose callback made it. There is
  one canvas, of which \<open>graph\<close> reads the width and the height.
\<close>

record page =
  cursor_of :: cursor
  timers :: "(nat \<times> session) list"
  next_id :: nat
  written :: "(nat \<times> canvas_write) list"

definition graph :: "page \<Rightarrow> nat \<Rightarrow> nat \<Rightarrow> nat \<Rightarrow> real \<Rightarrow> real \<Rightarrow> real \<Rightarrow> real \<Rightarrow> page \<times> nat" where
  "graph p width height max_iter' rxmin rxmax rymin rymax =
     (let s = graph_session width height max_iter' rxmin rxmax rymin rymax;
          timer = next_id p
      in (p\<lparr>cursor_of := \<lparr>xcurr = 0, ycurr = 0\<rparr>,
            timers := timers p @ [(timer, s)],
            next_id := timer + 1\<rparr>, timer))"

text \<open>
  A live timer that fires runs its session's callback on the global cursor; an id that
  is no timer runs nothing. The library never calls \<open>clearInterval\<close>, so a timer, once
  set, stays live.
\<close>

definition fire :: "page \<Rightarrow> nat \<Rightarrow> page" where
  "fire p timer =
     (case map_of (timers p) timer of
        None \<Rightarrow> p
      | Some s \<Rightarrow>
          (let (e, cur', ws) = tick s (cursor_of p)
           in p\<lparr>cursor_of := cur', written := written p @ map (Pair timer) ws\<rparr>))"

datatype event =
  Graph nat nat nat real real real real
| Fire nat

fun happen :: "event \<Rightarrow> page \<Rightarrow> page" where
  "happen (Graph width height max_iter' rxmin rxmax rymin rymax) p =
     fst (graph p width height max_iter' rxmin rxmax rymin rymax)"
| "happen (Fire timer) p = fire p timer"

definition happen_all :: "event list \<Rightarrow> page \<Rightarrow> page" where
  "happen_all evs p = fold happen evs p"

definition writes_of :: "nat \<Rightarrow> page \<Rightarrow> canvas_write list" where
  "writes_of timer p = map snd (filter (\<lambda>(i, w). i = timer) (written p))"

definition new_page :: page where
  "new_page = \<lparr>cursor_of = \<lparr>xcurr = 0, ycurr = 0\<rparr>, timers = [], next_id = 0, written = []\<rparr>"

section \<open>Properties of the iterated equation\<close>

lemma eval_components:
  "real_c (eval z c) = real_c z * real_c z - imaginary z * imaginary z + real_c c"
  "imaginary (eval z c) = 2 * real_c z * imaginary z + imaginary c"
  by (simp_all add: eval_def add_def multiply_def)

lemma escape_loop_exit:
  "escape_loop max_it c z count m = (k, r) \<Longrightarrow> k < max_it \<Longrightarrow> threshold \<le> r"
proof (induction max_it c z count m rule: escape_loop.induct)
  case (1 max_it c z count m)
  show ?case
  proof (cases "m < threshold \<and> count < max_it")
    case True
    with "1.prems" have
      "escape_loop max_it c (eval z c) (count + 1) (magnitude2 (eval z c)) = (k, r)"
      by (simp add: escape_loop.simps [of max_it c z count m] Let_def)
    with "1.IH" True "1.prems" show ?thesis by simp
  next
    case False
    with "1.prems" have "k = count" "r = m"
      by (simp_all add: escape_loop.simps [of max_it c z count m])
    with False "1.prems" show ?thesis by simp
  qed
qed


text \<open>
  C1 (as the repository has it). The \<open>eval\<close> of the documented library computes
  \<open>multiply(z, z)\<close> added to \<open>c\<close>, that is \<open>z^2 + c\<close>, for every \<open>z\<close> and \<open>c\<close>, and
  takes no absolute value. The \<open>eval\<close> of \<open>src/fractals.js\<close> squares
  \<open>(|re z|, |im z|)\<close> instead: its real part is the same, its imaginary part is
  \<open>2 * |re z| * |im z| + im c\<close>.
\<close>

theorem eval_quadratic_map:
  "eval z c = add (multiply z z) c
   \<and> eval z c = \<lparr>imaginary = 2 * real_c z * imaginary z + imaginary c,
                 real_c = real_c z * real_c z - imaginary z * imaginary z + real_c c\<rparr>
   \<and> eval_abs z c = \<lparr>imaginary = 2 * \<bar>real_c z\<bar> * \<bar>imaginary z\<bar> + imaginary c,
                     real_c = real_c z * real_c z - imaginary z * imaginary z + real_c c\<rparr>"
  by (simp add: eval_def eval_abs_def add_def multiply_def)

text \<open>
  C1 as stated fails for the \<open>eval\<close> of \<open>src/fractals.js\<close>: at \<open>z = 1 - i\<close>, \<open>c = 0\<close> it
  returns \<open>2i\<close>, while \<open>multiply(z, z) + c\<close> is \<open>-2i\<close>.
\<close>

theorem eval_abs_not_quadratic_map:
  "eval_abs \<lparr>imaginary = - 1, real_c = 1\<rparr> \<lparr>imaginary = 0, real_c = 0\<rparr>
     = \<lparr>imaginary = 2, real_c = 0\<rparr>
   \<and> add (multiply \<lparr>imaginary = - 1, real_c = 1\<rparr> \<lparr>imaginary = - 1, real_c = 1\<rparr>)
         \<lparr>imaginary = 0, real_c = 0\<rparr>
     = \<lparr>imaginary = - 2, real_c = 0\<rparr>
   \<and> eval_abs \<lparr>imaginary = - 1, real_c = 1\<rparr> \<lparr>imaginary = 0, real_c = 0\<rparr>
     \<noteq> add (multiply \<lparr>imaginary = - 1, real_c = 1\<rparr> \<lparr>imaginary = - 1, real_c = 1\<rparr>)
         \<lparr>imaginary = 0, real_c = 0\<rparr>"
  by (simp add: eval_abs_def add_def multiply_def)

text \<open>
  C10. Whenever the escape-time loop exits with \<open>count < max_iter\<close>, the final squared
  magnitude \<open>m\<close> is at least the threshold 4, so \<open>ln m \<ge> ln 4 > 0\<close>, and both arguments
  the smooth colouring passes to the logarithm, \<open>m\<close> and \<open>(ln m / 2) / ln 2\<close>, are
  strictly positive.
\<close>

theorem escape_exit_magnitude:
  assumes "escape c max_it = (count, m)" and "count < max_it"
  shows "4 \<le> m \<and> ln 4 \<le> ln m \<and> 0 < ln (4::real) \<and> 0 < m \<and> 0 < (ln m / 2) / ln 2"
proof -
  from assms have m4: "4 \<le> m"
    using escape_loop_exit [of max_it c _ 0 0 count m]
    by (simp add: escape_def threshold_def)
  then have l4: "ln 4 \<le> ln m" by simp
  have p4: "0 < ln (4::real)" by simp
  have "0 < ln m" using l4 p4 by linarith
  then have "0 < (ln m / 2) / ln 2" by simp
  with m4 l4 p4 show ?thesis by simp
qed

theorem escape_exit_magnitude_witness:
  "escape \<lparr>imaginary = 0, real_c = 2\<rparr> 100 = (1, 4) \<and> (1::nat) < 100
   \<and> (4::real) \<le> 4 \<and> 0 < ln (4::real) \<and> 0 < (ln (4::real) / 2) / ln 2"
proof -
  have e: "escape \<lparr>imaginary = 0, real_c = 2\<rparr> 100 = (1, 4)"
    by (simp add: escape_def escape_loop.simps [of 100 _ _ 0]
        escape_loop.simps [of 100 _ _ "Suc 0"] threshold_def eval_def add_def multiply_def
        magnitude2_def)
  from escape_exit_magnitude [OF e] e show ?thesis by simp
qed

section \<open>Properties of the Color functions\<close>

lemma lt16_cases:
  "(d::nat) < 16 \<Longrightarrow> d \<in> {0, 1, 2, 3, 4, 5, 6, 7, 8, 9, 10, 11, 12, 13, 14, 15}"
  by (simp; arith)

lemma digit_val_hex_digit: "d < 16 \<Longrightarrow> digit_val (hex_digit d) = Some d"
  using lt16_cases [of d] by (auto simp: digit_val_def hex_digit_def)

lemma digit_val_range: "digit_val ch = Some d \<Longrightarrow> d < 16"
  by (auto simp: digit_val_def Let_def split: if_splits)

lemma digit_val_not_special:
  assumes "digit_val ch = Some d"
  shows "\<not> js_whitespace ch" "ch \<noteq> CHR ''-''" "ch \<noteq> CHR ''+''" "ch \<noteq> CHR ''x''" "ch \<noteq> CHR ''X''"
  using assms by (auto simp: digit_val_def js_whitespace_def Let_def split: if_splits)

lemma parseInt16_two:
  assumes "digit_val a = Some da" and "digit_val b = Some db"
  shows "parseInt16 [a, b] = Some (int (16 * da + db))"
  using assms digit_val_not_special [OF assms(1)] digit_val_not_special [OF assms(2)]
  by (simp add: parseInt16_def hex_value_def)

lemma toString16_small: "n < 16 \<Longrightarrow> toString16 n = [hex_digit n]"
  by (simp add: toString16.simps [of n])

lemma toString16_byte:
  "16 \<le> n \<Longrightarrow> n < 256 \<Longrightarrow> toString16 n = [hex_digit (n div 16), hex_digit (n mod 16)]"
  by (simp add: toString16.simps [of n] toString16_small)

lemma hex_digit_0: "hex_digit 0 = CHR ''0''"
  by (simp add: hex_digit_def)

lemma interpolate_channel_byte:
  assumes "parseInt16 s1 = Some v1" and "parseInt16 s2 = Some v2"
    and "n = nat \<lfloor>\<bar>real_of_int v1 + slope * (real_of_int v2 - real_of_int v1)\<bar>\<rfloor>"
    and "n < 256"
  shows "interpolate_channel s1 s2 slope = [hex_digit (n div 16), hex_digit (n mod 16)]"
proof (cases "n < 16")
  case True
  then show ?thesis using assms
    by (simp add: interpolate_channel_def toString16_small hex_digit_0)
next
  case False
  then show ?thesis using assms
    by (simp add: interpolate_channel_def toString16_byte)
qed

lemma is_color_shape:
  assumes "is_color s"
  obtains a b c d e f where "s = [CHR ''#'', a, b, c, d, e, f]"
    "is_hex a" "is_hex b" "is_hex c" "is_hex d" "is_hex e" "is_hex f"
proof -
  from assms have "length s = 7" by (simp add: is_color_def)
  then obtain h a b c d e f where s: "s = [h, a, b, c, d, e, f]"
    by (auto simp: numeral_eq_Suc length_Suc_conv)
  with assms show ?thesis using that by (auto simp: is_color_def)
qed


lemma hex_digit_lower: "digit_val ch = Some d \<Longrightarrow> hex_digit d = lower_hex ch"
  by (simp add: lower_hex_def)

lemma digit_val_lower: "digit_val (lower_hex ch) = digit_val ch"
  by (cases "digit_val ch") (auto simp: lower_hex_def digit_val_hex_digit dest: digit_val_range)

lemma is_hex_lower: "is_hex ch \<Longrightarrow> is_hex (lower_hex ch)"
  by (simp add: is_hex_def digit_val_lower)

lemma floor_abs_of_nat: "nat \<lfloor>\<bar>real_of_int (int n)\<bar>\<rfloor> = n"
  by simp

lemma interpolate_channel_same:
  assumes "is_hex a" and "is_hex b"
  shows "interpolate_channel [a, b] [a, b] t = [lower_hex a, lower_hex b]"
proof -
  from assms obtain da db where d: "digit_val a = Some da" "digit_val b = Some db"
    by (auto simp: is_hex_def)
  have lt: "da < 16" "db < 16" using d digit_val_range by blast+
  have p: "parseInt16 [a, b] = Some (int (16 * da + db))" by (rule parseInt16_two [OF d])
  have "interpolate_channel [a, b] [a, b] t
      = [hex_digit ((16 * da + db) div 16), hex_digit ((16 * da + db) mod 16)]"
    by (rule interpolate_channel_byte [OF p p])
      (use lt floor_abs_of_nat [of "16 * da + db"] in \<open>simp_all del: of_nat_add of_nat_mult\<close>)
  with lt d show ?thesis by (simp add: hex_digit_lower)
qed

lemma interpolate_channel_first:
  assumes "is_hex a" and "is_hex b" and "is_hex a'" and "is_hex b'"
  shows "interpolate_channel [a, b] [a', b'] 0 = [lower_hex a, lower_hex b]"
proof -
  from assms obtain da db da' db' where d: "digit_val a = Some da" "digit_val b = Some db"
      "digit_val a' = Some da'" "digit_val b' = Some db'"
    by (auto simp: is_hex_def)
  have lt: "da < 16" "db < 16" using d digit_val_range by blast+
  have p: "parseInt16 [a, b] = Some (int (16 * da + db))" by (rule parseInt16_two [OF d(1,2)])
  have p': "parseInt16 [a', b'] = Some (int (16 * da' + db'))" by (rule parseInt16_two [OF d(3,4)])
  have "interpolate_channel [a, b] [a', b'] 0
      = [hex_digit ((16 * da + db) div 16), hex_digit ((16 * da + db) mod 16)]"
    by (rule interpolate_channel_byte [OF p p'])
      (use lt floor_abs_of_nat [of "16 * da + db"] in \<open>simp_all del: of_nat_add of_nat_mult\<close>)
  with lt d show ?thesis by (simp add: hex_digit_lower)
qed

lemma interpolate_channel_second:
  assumes "is_hex a" and "is_hex b" and "is_hex a'" and "is_hex b'"
  shows "interpolate_channel [a, b] [a', b'] 1 = [lower_hex a', lower_hex b']"
proof -
  from assms obtain da db da' db' where d: "digit_val a = Some da" "digit_val b = Some db"
      "digit_val a' = Some da'" "digit_val b' = Some db'"
    by (auto simp: is_hex_def)
  have lt: "da' < 16" "db' < 16" using d digit_val_range by blast+
  have p: "parseInt16 [a, b] = Some (int (16 * da + db))" by (rule parseInt16_two [OF d(1,2)])
  have p': "parseInt16 [a', b'] = Some (int (16 * da' + db'))" by (rule parseInt16_two [OF d(3,4)])
  have "interpolate_channel [a, b] [a', b'] 1
      = [hex_digit ((16 * da' + db') div 16), hex_digit ((16 * da' + db') mod 16)]"
    by (rule interpolate_channel_byte [OF p p'])
      (use lt floor_abs_of_nat [of "16 * da' + db'"] in \<open>simp_all del: of_nat_add of_nat_mult\<close>)
  with lt d show ?thesis by (simp add: hex_digit_lower)
qed


lemma lower_hex_hash: "lower_hex CHR ''#'' = CHR ''#''"
  by (simp add: lower_hex_def digit_val_def)

lemma channels_shape:
  "channels [h, a, b, c, d, e, f] = (parseInt16 [a, b], parseInt16 [c, d], parseInt16 [e, f])"
  by (simp add: channels_def substring_def)

lemma linear_interpolate_shape:
  "linear_interpolate [h, a, b, c, d, e, f] [h', a', b', c', d', e', f'] t =
     CHR ''#'' # interpolate_channel [a, b] [a', b'] t @ interpolate_channel [c, d] [c', d'] t
       @ interpolate_channel [e, f] [e', f'] t"
  by (simp add: linear_interpolate_def substring_def)

lemma parseInt16_lower:
  assumes "is_hex a" and "is_hex b"
  shows "parseInt16 [lower_hex a, lower_hex b] = parseInt16 [a, b]"
proof -
  from assms obtain da db where d: "digit_val a = Some da" "digit_val b = Some db"
    by (auto simp: is_hex_def)
  then have "digit_val (lower_hex a) = Some da" "digit_val (lower_hex b) = Some db"
    by (simp_all add: digit_val_lower)
  then show ?thesis using d by (simp add: parseInt16_two)
qed

lemma lowercase_fixed:
  assumes "list_all (\<lambda>ch. ch \<in> set ''#0123456789abcdef'') s"
  shows "lowercase s = s"
proof -
  have "lower_hex ch = ch" if "ch \<in> set ''#0123456789abcdef''" for ch
    using that by (auto simp: lower_hex_def digit_val_def hex_digit_def)
  with assms show ?thesis
    unfolding lowercase_def list_all_iff by (simp add: map_idI)
qed

text \<open>
  C8. For well-formed Colors \<open>a\<close>, \<open>b\<close> and every weight \<open>t\<close> (in particular every \<open>t\<close>
  in \<open>[0, 1]\<close>), \<open>linear_interpolate a a t\<close> is \<open>a\<close>, \<open>linear_interpolate a b 0\<close> is \<open>a\<close>
  and \<open>linear_interpolate a b 1\<close> is \<open>b\<close>, each printed with lower-case digits: the
  result has the same three channel values, and is the very string when the Color was
  written in lower case.
\<close>

theorem interpolate_identity_endpoints:
  assumes "is_color a" and "is_color b"
  shows "linear_interpolate a a t = lowercase a
    \<and> linear_interpolate a b 0 = lowercase a
    \<and> linear_interpolate a b 1 = lowercase b
    \<and> is_color (lowercase a) \<and> channels (lowercase a) = channels a
    \<and> is_color (lowercase b) \<and> channels (lowercase b) = channels b
    \<and> (list_all (\<lambda>ch. ch \<in> set ''#0123456789abcdef'') a \<longrightarrow> linear_interpolate a a t = a)"
proof -
  from assms(1) obtain a1 a2 a3 a4 a5 a6 where a: "a = [CHR ''#'', a1, a2, a3, a4, a5, a6]"
    and ha: "is_hex a1" "is_hex a2" "is_hex a3" "is_hex a4" "is_hex a5" "is_hex a6"
    by (rule is_color_shape)
  from assms(2) obtain b1 b2 b3 b4 b5 b6 where b: "b = [CHR ''#'', b1, b2, b3, b4, b5, b6]"
    and hb: "is_hex b1" "is_hex b2" "is_hex b3" "is_hex b4" "is_hex b5" "is_hex b6"
    by (rule is_color_shape)
  have low: "lowercase [CHR ''#'', c1, c2, c3, c4, c5, c6] = [CHR ''#'', lower_hex c1,
      lower_hex c2, lower_hex c3, lower_hex c4, lower_hex c5, lower_hex c6]"
    for c1 c2 c3 c4 c5 c6
    by (simp add: lowercase_def lower_hex_hash)
  have 1: "linear_interpolate a a t = lowercase a"
    by (simp add: a low linear_interpolate_shape interpolate_channel_same ha)
  have 2: "linear_interpolate a b 0 = lowercase a"
    by (simp add: a b low linear_interpolate_shape interpolate_channel_first ha hb)
  have 3: "linear_interpolate a b 1 = lowercase b"
    by (simp add: a b low linear_interpolate_shape interpolate_channel_second ha hb)
  have 4: "is_color (lowercase a)" "is_color (lowercase b)"
    by (simp_all add: a b low is_color_def is_hex_lower ha hb)
  have 5: "channels (lowercase a) = channels a" "channels (lowercase b) = channels b"
    by (simp_all add: a b low channels_shape parseInt16_lower ha hb)
  from 1 2 3 4 5 show ?thesis using lowercase_fixed [of a] by simp
qed


lemma parseInt16_color_range:
  assumes "is_hex a" and "is_hex b"
  obtains v where "parseInt16 [a, b] = Some v" "0 \<le> v" "v < 256"
proof -
  from assms obtain da db where d: "digit_val a = Some da" "digit_val b = Some db"
    by (auto simp: is_hex_def)
  have lt: "da < 16" "db < 16" using d digit_val_range by blast+
  have "parseInt16 [a, b] = Some (int (16 * da + db))" by (rule parseInt16_two [OF d])
  moreover have "int (16 * da + db) < 256" using lt by simp
  ultimately show ?thesis using that by simp
qed

lemma convex_bound:
  fixes t :: real and v1 v2 :: int
  assumes "0 \<le> t" "t \<le> 1" "0 \<le> v1" "v1 < 256" "0 \<le> v2" "v2 < 256"
  shows "\<bar>real_of_int v1 + t * (real_of_int v2 - real_of_int v1)\<bar> < 256"
proof -
  have e: "real_of_int v1 + t * (real_of_int v2 - real_of_int v1)
      = (1 - t) * real_of_int v1 + t * real_of_int v2"
    by (simp add: algebra_simps)
  have r: "real_of_int v1 \<le> 255" "real_of_int v2 \<le> 255" using assms by simp_all
  have "(1 - t) * real_of_int v1 \<le> (1 - t) * 255"
    by (rule mult_left_mono [OF r(1)]) (use assms in simp)
  moreover have "t * real_of_int v2 \<le> t * 255"
    by (rule mult_left_mono [OF r(2)]) (use assms in simp)
  ultimately have "(1 - t) * real_of_int v1 + t * real_of_int v2 \<le> (1 - t) * 255 + t * 255"
    by (rule add_mono)
  then have "(1 - t) * real_of_int v1 + t * real_of_int v2 \<le> 255"
    by (simp add: algebra_simps)
  moreover have "0 \<le> (1 - t) * real_of_int v1 + t * real_of_int v2"
    using assms by simp
  ultimately show ?thesis unfolding e by simp
qed

lemma interpolate_channel_parse:
  assumes "parseInt16 s1 = Some v1" and "parseInt16 s2 = Some v2"
    and "\<bar>real_of_int v1 + t * (real_of_int v2 - real_of_int v1)\<bar> < 256"
  obtains x y where "interpolate_channel s1 s2 t = [x, y]" "is_hex x" "is_hex y"
    "parseInt16 [x, y] = Some \<lfloor>\<bar>real_of_int v1 + t * (real_of_int v2 - real_of_int v1)\<bar>\<rfloor>"
proof -
  define w where "w = \<bar>real_of_int v1 + t * (real_of_int v2 - real_of_int v1)\<bar>"
  define n where "n = nat \<lfloor>w\<rfloor>"
  have w: "0 \<le> w" "w < 256" using assms(3) by (simp_all add: w_def)
  then have fl: "0 \<le> \<lfloor>w\<rfloor>" "\<lfloor>w\<rfloor> < 256" by (simp_all add: floor_less_iff)
  then have n: "n < 256" "int n = \<lfloor>w\<rfloor>" unfolding n_def by linarith+
  have s: "interpolate_channel s1 s2 t = [hex_digit (n div 16), hex_digit (n mod 16)]"
    by (rule interpolate_channel_byte [OF assms(1,2)]) (use n(1) in \<open>simp_all add: n_def w_def\<close>)
  have d: "digit_val (hex_digit (n div 16)) = Some (n div 16)"
    "digit_val (hex_digit (n mod 16)) = Some (n mod 16)"
    using n(1) by (simp_all add: digit_val_hex_digit)
  have "parseInt16 [hex_digit (n div 16), hex_digit (n mod 16)]
      = Some (int (16 * (n div 16) + n mod 16))"
    by (rule parseInt16_two [OF d])
  then have "parseInt16 [hex_digit (n div 16), hex_digit (n mod 16)] = Some \<lfloor>w\<rfloor>"
    using n(2) by simp
  with s d that show ?thesis unfolding w_def by (simp add: is_hex_def)
qed


lemma linear_interpolate_floor:
  assumes "is_color color1" and "is_color color2"
    and "channels color1 = (Some r1, Some g1, Some b1)"
    and "channels color2 = (Some r2, Some g2, Some b2)"
    and "(0 \<le> t \<and> t \<le> 1)
       \<or> (\<bar>real_of_int r1 + t * (real_of_int r2 - real_of_int r1)\<bar> < 256
          \<and> \<bar>real_of_int g1 + t * (real_of_int g2 - real_of_int g1)\<bar> < 256
          \<and> \<bar>real_of_int b1 + t * (real_of_int b2 - real_of_int b1)\<bar> < 256)"
  shows "is_color (linear_interpolate color1 color2 t)
    \<and> channels (linear_interpolate color1 color2 t) =
        (Some \<lfloor>\<bar>real_of_int r1 + t * (real_of_int r2 - real_of_int r1)\<bar>\<rfloor>,
         Some \<lfloor>\<bar>real_of_int g1 + t * (real_of_int g2 - real_of_int g1)\<bar>\<rfloor>,
         Some \<lfloor>\<bar>real_of_int b1 + t * (real_of_int b2 - real_of_int b1)\<bar>\<rfloor>)"
proof -
  from assms(1) obtain x1 x2 x3 x4 x5 x6 where x: "color1 = [CHR ''#'', x1, x2, x3, x4, x5, x6]"
    and hx: "is_hex x1" "is_hex x2" "is_hex x3" "is_hex x4" "is_hex x5" "is_hex x6"
    by (rule is_color_shape)
  from assms(2) obtain y1 y2 y3 y4 y5 y6 where y: "color2 = [CHR ''#'', y1, y2, y3, y4, y5, y6]"
    and hy: "is_hex y1" "is_hex y2" "is_hex y3" "is_hex y4" "is_hex y5" "is_hex y6"
    by (rule is_color_shape)
  from assms(3) have p1: "parseInt16 [x1, x2] = Some r1" "parseInt16 [x3, x4] = Some g1"
      "parseInt16 [x5, x6] = Some b1"
    by (simp_all add: x channels_shape)
  from assms(4) have p2: "parseInt16 [y1, y2] = Some r2" "parseInt16 [y3, y4] = Some g2"
      "parseInt16 [y5, y6] = Some b2"
    by (simp_all add: y channels_shape)
  have rg1: "0 \<le> r1 \<and> r1 < 256" "0 \<le> g1 \<and> g1 < 256" "0 \<le> b1 \<and> b1 < 256"
    using p1 parseInt16_color_range [OF hx(1,2)] parseInt16_color_range [OF hx(3,4)]
      parseInt16_color_range [OF hx(5,6)] by auto
  have rg2: "0 \<le> r2 \<and> r2 < 256" "0 \<le> g2 \<and> g2 < 256" "0 \<le> b2 \<and> b2 < 256"
    using p2 parseInt16_color_range [OF hy(1,2)] parseInt16_color_range [OF hy(3,4)]
      parseInt16_color_range [OF hy(5,6)] by auto
  have bd: "\<bar>real_of_int r1 + t * (real_of_int r2 - real_of_int r1)\<bar> < 256"
      "\<bar>real_of_int g1 + t * (real_of_int g2 - real_of_int g1)\<bar> < 256"
      "\<bar>real_of_int b1 + t * (real_of_int b2 - real_of_int b1)\<bar> < 256"
    using assms(5) rg1 rg2 convex_bound [of t] by blast+
  obtain ra rb where r: "interpolate_channel [x1, x2] [y1, y2] t = [ra, rb]" "is_hex ra"
      "is_hex rb"
      "parseInt16 [ra, rb] = Some \<lfloor>\<bar>real_of_int r1 + t * (real_of_int r2 - real_of_int r1)\<bar>\<rfloor>"
    by (rule interpolate_channel_parse [OF p1(1) p2(1) bd(1)])
  obtain ga gb where g: "interpolate_channel [x3, x4] [y3, y4] t = [ga, gb]" "is_hex ga"
      "is_hex gb"
      "parseInt16 [ga, gb] = Some \<lfloor>\<bar>real_of_int g1 + t * (real_of_int g2 - real_of_int g1)\<bar>\<rfloor>"
    by (rule interpolate_channel_parse [OF p1(2) p2(2) bd(2)])
  obtain ba bb where b: "interpolate_channel [x5, x6] [y5, y6] t = [ba, bb]" "is_hex ba"
      "is_hex bb"
      "parseInt16 [ba, bb] = Some \<lfloor>\<bar>real_of_int b1 + t * (real_of_int b2 - real_of_int b1)\<bar>\<rfloor>"
    by (rule interpolate_channel_parse [OF p1(3) p2(3) bd(3)])
  have res: "linear_interpolate color1 color2 t = [CHR ''#'', ra, rb, ga, gb, ba, bb]"
    by (simp add: x y linear_interpolate_shape r(1) g(1) b(1))
  show ?thesis
    unfolding res channels_shape
    by (simp add: is_color_def r g b)
qed

text \<open>
  The rounded arithmetic. With no rounding the lines of \<open>linear_interpolate\<close> are the
  exact ones. Of the rounding only two facts are used: it is monotone, and it leaves the
  integers up to 255 in magnitude, which are doubles, unchanged.
\<close>

lemma linear_interpolate_no_rounding:
  "linear_interpolate_rounding (\<lambda>x. x) color1 color2 slope = linear_interpolate color1 color2 slope"
  unfolding linear_interpolate_rounding_def linear_interpolate_def
    interpolate_channel_rounding_def interpolate_channel_def computed_channel_def
  by (rule refl)






theorem interpolate_identity_endpoints_witness:
  "is_color ''#773399'' \<and> is_color ''#CCAA66''
   \<and> linear_interpolate ''#773399'' ''#773399'' (1 / 2) = ''#773399''
   \<and> linear_interpolate ''#773399'' ''#CCAA66'' 0 = ''#773399''
   \<and> linear_interpolate ''#773399'' ''#CCAA66'' 1 = ''#ccaa66''
   \<and> channels ''#ccaa66'' = channels ''#CCAA66''"
proof -
  have c: "is_color ''#773399''" "is_color ''#CCAA66''"
    by (simp_all add: is_color_def is_hex_def digit_val_def)
  have l: "lowercase ''#773399'' = ''#773399''" "lowercase ''#CCAA66'' = ''#ccaa66''"
    by (simp_all add: lowercase_def lower_hex_def digit_val_def hex_digit_def)
  from interpolate_identity_endpoints [OF c, of "1 / 2"] c l show ?thesis
    by simp
qed

section \<open>Properties of the palette\<close>

lemma palette_loop_length: "length (palette_loop n f i cs) = length cs"
proof (induction n f i cs rule: palette_loop.induct)
  case (1 n f i cs)
  then show ?case by (simp add: palette_loop.simps [of n f i cs])
qed

lemma palette_hex_loop_length: "length (palette_hex_loop p n f i cs) = length cs"
proof (induction p n f i cs rule: palette_hex_loop.induct)
  case (1 p n f i cs)
  then show ?case by (simp add: palette_hex_loop.simps [of p n f i cs] Let_def)
qed

lemma palette_loop_nth:
  "j < length cs \<Longrightarrow>
   palette_loop n f i cs ! j =
     (if i \<le> j \<and> j < n
      then Some (linear_interpolate end_color mid_color (sin (real j * f))) else cs ! j)"
proof (induction n f i cs rule: palette_loop.induct)
  case (1 n f i cs)
  show ?case
  proof (cases "i < n")
    case True
    have "i \<le> j \<and> \<not> Suc i \<le> j \<longleftrightarrow> j = i" by arith
    with True "1.prems" "1.IH" show ?thesis
      by (cases "j = i") (auto simp: palette_loop.simps [of n f i cs] nth_list_update)
  next
    case False
    then show ?thesis by (auto simp: palette_loop.simps [of n f i cs])
  qed
qed

lemma palette_nth:
  "j < n \<Longrightarrow> palette n ! j =
     Some (linear_interpolate end_color mid_color
       (sin (real j * (pi / (2 * real_of_int (max 1 (int n - 1)))))))"
  by (simp add: palette_def Let_def palette_loop_length palette_loop_nth)

text \<open>
  The palette of the documented library holds what the specification asks for: for
  every \<open>max_iter\<close> it has \<open>max_iter + 1\<close> entries, each entry below \<open>max_iter\<close> is the
  well-formed Color interpolated between the two anchors at the sine of its phase, and
  the last entry is \<open>#000000\<close>.
\<close>

lemma anchors_color:
  "is_color end_color" "is_color mid_color"
  "channels end_color = (Some 119, Some 51, Some 153)"
  "channels mid_color = (Some 204, Some 170, Some 102)"
  by (simp_all add: end_color_def mid_color_def is_color_def is_hex_def digit_val_def
      channels_def substring_def parseInt16_def js_whitespace_def hex_value_def)

lemma palette_phase:
  assumes "j < n"
  shows "0 \<le> sin (real j * (pi / (2 * real_of_int (max 1 (int n - 1)))))"
    and "sin (real j * (pi / (2 * real_of_int (max 1 (int n - 1))))) \<le> 1"
proof -
  define k where "k = real_of_int (max 1 (int n - 1))"
  define q where "q = real j / k"
  have k: "0 < k" "real j \<le> k" using assms by (simp_all add: k_def)
  have q: "0 \<le> q" "q \<le> 1" using k by (simp_all add: q_def)
  have x: "real j * (pi / (2 * k)) = q * (pi / 2)" by (simp add: q_def)
  have "0 \<le> q * (pi / 2)" by (rule mult_nonneg_nonneg) (use q in simp_all)
  moreover have "q * (pi / 2) \<le> 1 * (pi / 2)" by (rule mult_right_mono) (use q in simp_all)
  ultimately have "0 \<le> real j * (pi / (2 * k))" "real j * (pi / (2 * k)) \<le> pi"
    unfolding x using pi_gt_zero by linarith+
  then have "0 \<le> sin (real j * (pi / (2 * k)))" by (rule sin_ge_zero)
  then show "0 \<le> sin (real j * (pi / (2 * real_of_int (max 1 (int n - 1)))))"
    unfolding k_def .
  show "sin (real j * (pi / (2 * real_of_int (max 1 (int n - 1))))) \<le> 1" by (rule sin_le_one)
qed

lemma palette_colors:
  "length (palette n) = n + 1
   \<and> (\<forall>j<n. palette n ! j =
          Some (linear_interpolate end_color mid_color
                  (sin (real j * (pi / (2 * real_of_int (max 1 (int n - 1)))))))
        \<and> is_color (linear_interpolate end_color mid_color
                  (sin (real j * (pi / (2 * real_of_int (max 1 (int n - 1))))))))
   \<and> palette n ! n = Some ''#000000''"
proof -
  have 1: "length (palette n) = n + 1"
    by (simp add: palette_def Let_def palette_loop_length)
  have 2: "palette n ! n = Some ''#000000''"
    by (simp add: palette_def Let_def palette_loop_length)
  have 3: "is_color (linear_interpolate end_color mid_color
      (sin (real j * (pi / (2 * real_of_int (max 1 (int n - 1)))))))" if "j < n" for j
    using linear_interpolate_floor [OF anchors_color,
        of "sin (real j * (pi / (2 * real_of_int (max 1 (int n - 1)))))"]
      palette_phase [OF that] by simp
  from 1 2 3 palette_nth show ?thesis by simp
qed

lemma palette_hex_loop_nth:
  "j < length cs \<Longrightarrow>
   palette_hex_loop p n f i cs ! j =
     (if i \<le> j \<and> j < n
      then Some (''#'' @ substring (''000000'' @ p (real j * f))
                   (length (''000000'' @ p (real j * f)) - 7)
                   (length (''000000'' @ p (real j * f)) - 1))
      else cs ! j)"
proof (induction p n f i cs rule: palette_hex_loop.induct)
  case (1 p n f i cs)
  show ?case
  proof (cases "i < n")
    case True
    have "i \<le> j \<and> \<not> Suc i \<le> j \<longleftrightarrow> j = i" by arith
    with True "1.prems" "1.IH" show ?thesis
      by (cases "j = i") (auto simp: palette_hex_loop.simps [of p n f i cs] nth_list_update Let_def)
  next
    case False
    then show ?thesis by (auto simp: palette_hex_loop.simps [of p n f i cs])
  qed
qed

lemma palette_hex_nth:
  "j < n \<Longrightarrow> palette_hex p n ! j =
     Some (''#'' @ substring (''000000'' @ p (real j * (256 * 256 * 256 / real n)))
             (length (''000000'' @ p (real j * (256 * 256 * 256 / real n))) - 7)
             (length (''000000'' @ p (real j * (256 * 256 * 256 / real n))) - 1))"
  by (simp add: palette_hex_def Let_def palette_hex_loop_length palette_hex_loop_nth)

lemma palette_hex_length_last:
  "length (palette_hex number_toString16 n) = n + 1
   \<and> palette_hex number_toString16 n ! n = Some ''#000000''"
  by (simp add: palette_hex_def Let_def palette_hex_loop_length)

lemma toString16_number_half: "toString16_number (1 / 2) = ''0.8''"
proof -
  have "hex_fraction 269 (1 / 2) = ''8''"
    by (subst hex_fraction.simps, simp add: hex_digit_def, subst hex_fraction.simps, simp)
  then show ?thesis
    by (simp add: toString16_number_def toString16.simps [of 0] hex_digit_def)
qed

text \<open>
  C9 fails on the palette of \<open>src/fractals.js\<close>. For \<open>max_iter = 33554432\<close>, twice
  \<open>256*256*256\<close>, \<open>colorf\<close> is a half; entry 1 is cut out of \<open>0000000.8\<close>, between the
  places 2 and 8, and is \<open>#00000.\<close>, which is not a Color: the point of the printed
  Number is inside it. (All Numbers of this run are doubles, so the exact arithmetic
  is that of the language.)
\<close>

theorem palette_hex_entry_no_color:
  "length (palette_hex toString16_number 33554432) = 33554433
   \<and> palette_hex toString16_number 33554432 ! 1 = Some ''#00000.''
   \<and> \<not> is_color ''#00000.''"
proof -
  have 1: "length (palette_hex toString16_number 33554432) = 33554433"
    by (simp add: palette_hex_def Let_def palette_hex_loop_length)
  have 2: "palette_hex toString16_number 33554432 ! 1 = Some ''#00000.''"
    using palette_hex_nth [of 1 33554432 toString16_number]
    by (simp add: toString16_number_half substring_def)
  have 3: "\<not> is_color ''#00000.''"
    by (simp add: is_color_def is_hex_def digit_val_def)
  from 1 2 3 show ?thesis by simp
qed


section \<open>Bounds on the escape-time loop\<close>

lemma escape_loop_count:
  "escape_loop n c z count m = (k, r) \<Longrightarrow> count \<le> n \<Longrightarrow>
   count \<le> k \<and> k \<le> n \<and> (k = count \<longrightarrow> r = m)"
proof (induction n c z count m rule: escape_loop.induct)
  case (1 n c z count m)
  show ?case
  proof (cases "m < threshold \<and> count < n")
    case True
    with "1.prems" have
      "escape_loop n c (eval z c) (count + 1) (magnitude2 (eval z c)) = (k, r)"
      by (simp add: escape_loop.simps [of n c z count m] Let_def)
    with "1.IH" True show ?thesis by auto
  next
    case False
    with "1.prems" show ?thesis
      by (simp add: escape_loop.simps [of n c z count m])
  qed
qed

lemma magnitude2_cmod: "magnitude2 z = (cmod (Complex (real_c z) (imaginary z)))\<^sup>2"
  unfolding cmod_power2 by (simp add: magnitude2_def power2_eq_square)

lemma eval_Complex:
  "Complex (real_c (eval z c)) (imaginary (eval z c))
     = Complex (real_c c) (imaginary c)
       + Complex (real_c z) (imaginary z) * Complex (real_c z) (imaginary z)"
  by (simp add: eval_def add_def multiply_def complex_eq_iff)

lemma magnitude2_eval_bound:
  assumes "magnitude2 z < 4" and "magnitude2 c \<le> 256"
  shows "magnitude2 (eval z c) \<le> 400"
proof -
  let ?Z = "Complex (real_c z) (imaginary z)" and ?C = "Complex (real_c c) (imaginary c)"
  have c: "cmod ?C \<le> 16"
  proof -
    have "(cmod ?C)\<^sup>2 \<le> 16\<^sup>2" using assms(2) by (simp add: magnitude2_cmod)
    then show ?thesis by (rule power2_le_imp_le) simp
  qed
  have z: "cmod ?Z * cmod ?Z \<le> 4"
    using assms(1) by (simp add: magnitude2_cmod power2_eq_square)
  have "cmod (?C + ?Z * ?Z) \<le> cmod ?C + cmod (?Z * ?Z)" by (rule norm_triangle_ineq)
  also have "\<dots> = cmod ?C + cmod ?Z * cmod ?Z" by (simp add: norm_mult)
  also have "\<dots> \<le> 20" using c z by linarith
  finally have "cmod (?C + ?Z * ?Z) \<le> 20" .
  then have "(cmod (?C + ?Z * ?Z))\<^sup>2 \<le> 20\<^sup>2" by (rule power_mono) simp
  then show ?thesis by (simp add: magnitude2_cmod [of "eval z c"] eval_Complex)
qed

lemma escape_loop_bound:
  "escape_loop n c z count m = (k, r) \<Longrightarrow> m = magnitude2 z \<Longrightarrow> magnitude2 c \<le> 256 \<Longrightarrow>
   count \<le> n \<Longrightarrow> count < k \<Longrightarrow> r \<le> 400"
proof (induction n c z count m rule: escape_loop.induct)
  case (1 n c z count m)
  show ?case
  proof (cases "m < threshold \<and> count < n")
    case True
    with "1.prems"(1) have run:
      "escape_loop n c (eval z c) (count + 1) (magnitude2 (eval z c)) = (k, r)"
      by (simp add: escape_loop.simps [of n c z count m] Let_def)
    from True "1.prems" have b: "magnitude2 (eval z c) \<le> 400"
      by (intro magnitude2_eval_bound) (simp_all add: threshold_def)
    from escape_loop_count [OF run] True
    have k: "count + 1 \<le> k" "k = count + 1 \<longrightarrow> r = magnitude2 (eval z c)" by auto
    show ?thesis
    proof (cases "k = count + 1")
      case True
      with k b show ?thesis by simp
    next
      case False
      with k have "count + 1 < k" by simp
      with "1.IH" [OF True refl run refl] "1.prems" True show ?thesis by simp
    qed
  next
    case False
    with "1.prems"(1) have "k = count"
      by (simp add: escape_loop.simps [of n c z count m])
    with "1.prems" show ?thesis by simp
  qed
qed

lemma escape_first:
  assumes "escape c n = (k, r)" and "k < n"
  shows "1 \<le> k" and "k = 1 \<longrightarrow> r = magnitude2 c"
proof -
  from assms have n: "0 < n" by simp
  have e: "eval \<lparr>imaginary = 0, real_c = 0\<rparr> c = c"
    by (simp add: eval_def add_def multiply_def)
  from assms(1) n have run: "escape_loop n c c 1 (magnitude2 c) = (k, r)"
    by (simp add: escape_def escape_loop.simps [of n c _ 0 0] threshold_def e)
  from escape_loop_count [OF run] n show "1 \<le> k" and "k = 1 \<longrightarrow> r = magnitude2 c"
    by auto
qed

lemma escape_bound:
  assumes "escape c n = (k, r)" and "k < n" and "magnitude2 c \<le> 256"
  shows "r \<le> 2 ^ (2 ^ (k + 2))"
proof (cases "k = 1")
  case True
  with escape_first [OF assms(1,2)] assms(3) show ?thesis by simp
next
  case False
  with escape_first(1) [OF assms(1,2)] have k2: "2 \<le> k" by simp
  have "0 < k" using k2 by simp
  from assms(1) have "escape_loop n c \<lparr>imaginary = 0, real_c = 0\<rparr> 0 0 = (k, r)"
    by (simp add: escape_def)
  then have "r \<le> 400"
    by (rule escape_loop_bound) (use assms \<open>0 < k\<close> in \<open>simp_all add: magnitude2_def\<close>)
  moreover have "(2::real) ^ 16 \<le> 2 ^ (2 ^ (k + 2))"
  proof (rule power_increasing)
    have "(2::nat) ^ 4 \<le> 2 ^ (k + 2)" by (rule power_increasing) (use k2 in simp_all)
    then show "16 \<le> (2::nat) ^ (k + 2)" by simp
  qed simp
  ultimately show ?thesis by simp
qed

lemma escape_count_le: "escape c n = (k, r) \<Longrightarrow> k \<le> n"
  using escape_loop_count [of n c _ 0 0 k r] by (simp add: escape_def)

section \<open>Properties of the coloring of a point\<close>

lemma ln2_pos: "0 < ln (2::real)"
  by simp

lemma ln_pow2: "ln ((2::real) ^ k) = real k * ln 2"
  by (simp add: ln_realpow)

lemma ratio_ge1:
  assumes "4 \<le> (m::real)"
  shows "1 \<le> ln m / 2 / ln 2"
proof -
  have "ln ((2::real) ^ 2) \<le> ln m" using assms by simp
  then have "2 * ln 2 \<le> ln m" by (simp only: ln_pow2)
  then show ?thesis using ln2_pos by (simp add: field_simps)
qed

lemma normalized_count_le:
  assumes "4 \<le> m"
  shows "normalized_count count m \<le> real count + 1"
proof -
  have "0 \<le> ln (ln m / 2 / ln 2)" using ratio_ge1 [OF assms] by simp
  then have "0 \<le> ln (ln m / 2 / ln 2) / ln 2" using ln2_pos by simp
  then show ?thesis by (simp add: normalized_count_def Let_def)
qed

lemma normalized_count_ge:
  assumes "4 \<le> m" and "m \<le> 2 ^ (2 ^ (count + 2))"
  shows "0 \<le> normalized_count count m"
proof -
  have m0: "0 < m" using assms(1) by simp
  have "ln m \<le> ln ((2::real) ^ (2 ^ (count + 2)))" using assms(2) m0 by simp
  then have "ln m \<le> real (2 ^ (count + 2)) * ln 2" by (simp only: ln_pow2)
  then have "ln m \<le> 2 * (2 ^ (count + 1) * ln 2)" by simp
  then have r: "ln m / 2 / ln 2 \<le> 2 ^ (count + 1)" using ln2_pos by (simp add: field_simps)
  have "0 < ln m / 2 / ln 2" using ratio_ge1 [OF assms(1)] by linarith
  with r have "ln (ln m / 2 / ln 2) \<le> ln ((2::real) ^ (count + 1))" by simp
  then have "ln (ln m / 2 / ln 2) \<le> real (count + 1) * ln 2" by (simp only: ln_pow2)
  then have "ln (ln m / 2 / ln 2) / ln 2 \<le> real count + 1"
    using ln2_pos by (simp add: field_simps)
  then show ?thesis by (simp add: normalized_count_def Let_def)
qed

lemma palette_index:
  assumes "0 \<le> i" and "i \<le> int n"
  shows "\<exists>c. js_index (palette n) i = Some c"
proof (cases "nat i = n")
  case True
  with assms show ?thesis
    by (auto simp: js_index_def palette_def Let_def palette_loop_length)
next
  case False
  with assms have "nat i < n" by simp
  from palette_nth [OF this] assms show ?thesis
    by (auto simp: js_index_def palette_def Let_def palette_loop_length)
qed

lemma smooth_indices:
  assumes "4 \<le> m" and "m \<le> 2 ^ (2 ^ (count + 2))" and "int count < int n - 1"
  shows "0 \<le> \<lfloor>normalized_count count m\<rfloor>"
    and "\<lfloor>normalized_count count m\<rfloor> + 1 \<le> int n"
proof -
  show "0 \<le> \<lfloor>normalized_count count m\<rfloor>"
    using normalized_count_ge [OF assms(1,2)] by simp
  have "\<lfloor>normalized_count count m\<rfloor> \<le> \<lfloor>real count + 1\<rfloor>"
    by (rule floor_mono) (rule normalized_count_le [OF assms(1)])
  also have "\<lfloor>real count + 1\<rfloor> = int count + 1" by linarith
  finally show "\<lfloor>normalized_count count m\<rfloor> + 1 \<le> int n" using assms(3) by simp
qed

lemma smooth_color_palette:
  assumes "4 \<le> m" and "m \<le> 2 ^ (2 ^ (count + 2))" and "int count < int n - 1"
  shows "\<exists>c1 c2. js_index (palette n) \<lfloor>normalized_count count m\<rfloor> = Some c1
      \<and> js_index (palette n) (\<lfloor>normalized_count count m\<rfloor> + 1) = Some c2
      \<and> smooth_color (palette n) count m
          = Inr (Some (linear_interpolate c1 c2 (js_rem1 (normalized_count count m))))"
proof -
  from smooth_indices [OF assms] have i: "0 \<le> \<lfloor>normalized_count count m\<rfloor>"
    "\<lfloor>normalized_count count m\<rfloor> + 1 \<le> int n" by simp_all
  from i obtain c1 where c1: "js_index (palette n) \<lfloor>normalized_count count m\<rfloor> = Some c1"
    using palette_index [of "\<lfloor>normalized_count count m\<rfloor>" n] by auto
  from i obtain c2 where c2: "js_index (palette n) (\<lfloor>normalized_count count m\<rfloor> + 1) = Some c2"
    using palette_index [of "\<lfloor>normalized_count count m\<rfloor> + 1" n] by auto
  from assms(1) have "\<not> m \<le> 1" by simp
  with c1 c2 show ?thesis by (simp add: smooth_color_def Let_def)
qed

text \<open>
  Near the origin the smooth coloring is safe: for the result of the escape-time loop
  on a constant \<open>c\<close> with \<open>|c| \<le> 16\<close> that enters the smooth coloring
  (\<open>count < max_iter - 1\<close>), both palette indices \<open>floor(it)\<close> and \<open>floor(it) + 1\<close> lie
  in \<open>0..max_iter\<close>, the palette has a color at both, and the point gets their blend.
\<close>

lemma smooth_indices_in_range:
  assumes "escape c max_it = (count, m)" and "int count < int max_it - 1"
    and "magnitude2 c \<le> 256"
  shows "0 \<le> \<lfloor>normalized_count count m\<rfloor>
    \<and> \<lfloor>normalized_count count m\<rfloor> + 1 \<le> int max_it
    \<and> (\<exists>c1 c2. js_index (palette max_it) \<lfloor>normalized_count count m\<rfloor> = Some c1
          \<and> js_index (palette max_it) (\<lfloor>normalized_count count m\<rfloor> + 1) = Some c2
          \<and> pixel_color (palette max_it) max_it count m
              = Inr (Some (linear_interpolate c1 c2 (js_rem1 (normalized_count count m)))))"
proof -
  from assms(2) have lt: "count < max_it" by simp
  have m4: "4 \<le> m"
    using escape_loop_exit [of max_it c _ 0 0 count m] assms(1) lt
    by (simp add: escape_def threshold_def)
  have mb: "m \<le> 2 ^ (2 ^ (count + 2))" by (rule escape_bound [OF assms(1) lt assms(3)])
  from smooth_indices [OF m4 mb assms(2)] smooth_color_palette [OF m4 mb assms(2)] assms(2)
  show ?thesis by (simp add: pixel_color_def)
qed

lemma escape_one_step:
  assumes "4 \<le> magnitude2 c" and "0 < n"
  shows "escape c n = (1, magnitude2 c)"
proof -
  have e: "eval \<lparr>imaginary = 0, real_c = 0\<rparr> c = c"
    by (simp add: eval_def add_def multiply_def)
  have "escape c n = escape_loop n c c 1 (magnitude2 c)"
    using assms(2) by (simp add: escape_def escape_loop.simps [of n c _ 0 0] threshold_def e)
  also have "\<dots> = (1, magnitude2 c)"
    using assms(1) by (subst escape_loop.simps) (simp add: threshold_def)
  finally show ?thesis .
qed

lemma escape_origin_step:
  "escape_loop n \<lparr>imaginary = 0, real_c = 0\<rparr> \<lparr>imaginary = 0, real_c = 0\<rparr> count 0 = (n, 0)"
  if "count \<le> n"
  using that
proof (induction "n - count" arbitrary: count)
  case 0
  then show ?case by (subst escape_loop.simps) simp
next
  case (Suc d)
  then have "count < n" "d = n - (count + 1)" "count + 1 \<le> n" by simp_all
  with Suc.hyps(1) [of "count + 1"] show ?case
    by (simp add: escape_loop.simps [of n _ _ count] threshold_def eval_def add_def multiply_def
        magnitude2_def)
qed

lemma escape_origin: "escape \<lparr>imaginary = 0, real_c = 0\<rparr> n = (n, 0)"
  by (simp add: escape_def escape_origin_step)

lemma normalized_count_pow:
  assumes "0 < j"
  shows "normalized_count count (2 ^ (2 * j)) = real count + 1 - ln (real j) / ln 2"
proof -
  have "ln ((2::real) ^ (2 * j)) = real (2 * j) * ln 2" by (rule ln_pow2)
  then have "ln ((2::real) ^ (2 * j)) / 2 / ln 2 = real j" by simp
  then show ?thesis by (simp add: normalized_count_def Let_def)
qed

lemma log2_3: "1 < ln (3::real) / ln 2" "ln (3::real) / ln 2 < 2"
proof -
  have "ln (2::real) < ln 3" by simp
  then show "1 < ln (3::real) / ln 2" by simp
  have "ln (3::real) < ln (2 ^ 2)" by simp
  also have "\<dots> = 2 * ln 2" by (simp only: ln_pow2)
  finally show "ln (3::real) / ln 2 < 2" by (simp add: field_simps)
qed

lemma normalized_count_64: "normalized_count (Suc 0) 64 = 2 - ln 3 / ln 2"
  using normalized_count_pow [of 3 1] by simp

lemma normalized_count_negative:
  assumes "256 < m"
  shows "normalized_count (Suc 0) m < 0"
proof -
  have m0: "0 < m" using assms by simp
  have "ln ((2::real) ^ 8) < ln m" using assms by simp
  then have "8 * ln 2 < ln m" by (simp only: ln_pow2)
  then have r: "4 < ln m / 2 / ln 2" using ln2_pos by (simp add: field_simps)
  then have "ln ((2::real) ^ 2) < ln (ln m / 2 / ln 2)" by simp
  then have "2 * ln 2 < ln (ln m / 2 / ln 2)" by (simp only: ln_pow2)
  then have "2 < ln (ln m / 2 / ln 2) / ln 2" using ln2_pos by (simp add: field_simps)
  then show ?thesis by (simp add: normalized_count_def Let_def)
qed

text \<open>
  C4 fails on the code. \<open>graph\<close> is called for a 40 by 20 canvas, \<open>max_iter = 100\<close> and
  the region \<open>[17, 18] \<times> [1, 2]\<close>, which meets what \<open>graph\<close> requires. The constant of the
  first point is \<open>(-18, -2)\<close>; the loop leaves after one step with \<open>m = 328\<close>, the smooth
  coloring is entered, \<open>it\<close> is negative and so is the index \<open>floor(it)\<close>;
  \<open>colors[floor(it)]\<close> is \<open>undefined\<close> and \<open>linear_interpolate\<close> throws a TypeError.
  The index is not clamped and there is no fallback to \<open>colors[count]\<close>. The callback
  ends there, after clearing the subdivision, with the cursor where it was.
\<close>

theorem smooth_coloring_throws:
  "pixel_constant (graph_session 40 20 100 17 18 1 2) 0 0 = \<lparr>imaginary = - 2, real_c = - 18\<rparr>
   \<and> escape \<lparr>imaginary = - 2, real_c = - 18\<rparr> 100 = (1, 328)
   \<and> \<lfloor>normalized_count 1 328\<rfloor> < 0
   \<and> pixel (graph_session 40 20 100 17 18 1 2) 0 0 = Inl TypeError
   \<and> tick (graph_session 40 20 100 17 18 1 2) \<lparr>xcurr = 0, ycurr = 0\<rparr>
       = (Thrown TypeError, \<lparr>xcurr = 0, ycurr = 0\<rparr>, [ClearRect 0 0 1 1])"
proof -
  define s where "s = graph_session 40 20 100 17 18 1 2"
  have f: "xdiff s = 40" "ydiff s = 20" "xd s = 1" "yd s = 1" "max_iter s = 100"
    "colors s = palette 100"
    by (simp_all add: s_def graph_session_def round_def)
  have c: "pixel_constant s 0 0 = \<lparr>imaginary = - 2, real_c = - 18\<rparr>"
    by (simp add: s_def pixel_constant_def graph_session_def)
  have e: "escape \<lparr>imaginary = - 2, real_c = - 18\<rparr> 100 = (1, 328)"
    using escape_one_step [of "\<lparr>imaginary = - 2, real_c = - 18\<rparr>" 100]
    by (simp add: magnitude2_def)
  have n: "normalized_count (Suc 0) 328 < 0" by (rule normalized_count_negative) simp
  then have fl: "\<lfloor>normalized_count (Suc 0) 328\<rfloor> < 0" by linarith
  have sm: "smooth_color (palette 100) (Suc 0) 328 = Inl TypeError"
    using fl by (simp add: smooth_color_def js_index_def Let_def)
  have p: "pixel s 0 0 = Inl TypeError"
    using e sm by (simp add: pixel_def c f pixel_color_def)
  have t: "tick s \<lparr>xcurr = 0, ycurr = 0\<rparr>
      = (Thrown TypeError, \<lparr>xcurr = 0, ycurr = 0\<rparr>, [ClearRect 0 0 1 1])"
    by (simp add: tick_def f tile_points_def p Let_def)
  from c e fl p t show ?thesis unfolding s_def by simp
qed


lemma palette_black: "js_index (palette n) (int n) = Some ''#000000''"
  by (simp add: js_index_def palette_def Let_def palette_loop_length)

text \<open>
  C3 (as the code has it). For every result \<open>(count, m)\<close> of the escape-time loop,
  \<open>count \<le> max_iter\<close>, and: if \<open>count < max_iter - 1\<close> the color is the smooth color;
  if \<open>count = max_iter - 1\<close> it is \<open>colors[count]\<close>, not smoothed; if
  \<open>count = max_iter\<close> it is the reserved entry at index \<open>max_iter\<close>, black.
\<close>

theorem pixel_color_branches:
  assumes "escape c max_it = (count, m)"
  shows "count \<le> max_it
    \<and> (count + 1 < max_it \<longrightarrow> pixel_color cs max_it count m = smooth_color cs count m)
    \<and> (count + 1 = max_it \<longrightarrow> pixel_color cs max_it count m = Inr (js_index cs (int count)))
    \<and> (count = max_it \<longrightarrow>
          pixel_color (palette max_it) max_it count m = Inr (Some ''#000000''))"
  using escape_count_le [OF assms] by (auto simp: pixel_color_def palette_black)

theorem pixel_color_branches_witness:
  "escape \<lparr>imaginary = 0, real_c = 2\<rparr> 100 = (1, 4)
   \<and> pixel_color (palette 100) 100 1 4 = smooth_color (palette 100) 1 4
   \<and> escape \<lparr>imaginary = 0, real_c = 8\<rparr> 2 = (1, 64)
   \<and> pixel_color (palette 2) 2 1 64 = Inr (js_index (palette 2) 1)
   \<and> escape \<lparr>imaginary = 0, real_c = 0\<rparr> 5 = (5, 0)
   \<and> pixel_color (palette 5) 5 5 0 = Inr (Some ''#000000'')"
proof -
  have e: "escape \<lparr>imaginary = 0, real_c = 2\<rparr> 100 = (1, 4)"
    using escape_one_step [of "\<lparr>imaginary = 0, real_c = 2\<rparr>" 100] by (simp add: magnitude2_def)
  have l: "escape \<lparr>imaginary = 0, real_c = 8\<rparr> 2 = (1, 64)"
    using escape_one_step [of "\<lparr>imaginary = 0, real_c = 8\<rparr>" 2] by (simp add: magnitude2_def)
  have o: "escape \<lparr>imaginary = 0, real_c = 0\<rparr> 5 = (5, 0)" by (rule escape_origin)
  from pixel_color_branches [OF e, of "palette 100"] pixel_color_branches [OF l, of "palette 2"]
    pixel_color_branches [OF o] e l o
  show ?thesis by simp
qed

lemma palette2:
  "js_index (palette 2) 0 = Some ''#773399''" "js_index (palette 2) 1 = Some ''#ccaa66''"
proof -
  have 0: "linear_interpolate end_color mid_color 0 = ''#773399''"
    by (simp add: end_color_def mid_color_def linear_interpolate_def interpolate_channel_def
        substring_def parseInt16_def js_whitespace_def digit_val_def hex_value_def
        toString16.simps hex_digit_def)
  have 1: "linear_interpolate end_color mid_color 1 = ''#ccaa66''"
    by (simp add: end_color_def mid_color_def linear_interpolate_def interpolate_channel_def
        substring_def parseInt16_def js_whitespace_def digit_val_def hex_value_def
        toString16.simps hex_digit_def)
  have l: "length (palette 2) = 3" by (simp add: palette_def Let_def palette_loop_length)
  show "js_index (palette 2) 0 = Some ''#773399''"
    using palette_nth [of 0 2] by (simp add: js_index_def l 0)
  show "js_index (palette 2) 1 = Some ''#ccaa66''"
    using palette_nth [of 1 2] by (simp add: js_index_def l 1)
qed

text \<open>
  C3 as stated fails at \<open>count = max_iter - 1\<close>: for \<open>c = 8\<close> and \<open>max_iter = 2\<close> the loop
  returns \<open>count = 1 < max_iter\<close>, \<open>m = 64\<close>, and the point is colored \<open>colors[1]\<close>,
  while the smooth coloring of \<open>(1, 64)\<close> blends \<open>colors[0]\<close> and \<open>colors[1]\<close> with
  weight \<open>2 - log2(3)\<close>, a color with a smaller red channel.
\<close>

theorem last_escape_not_smoothed:
  "escape \<lparr>imaginary = 0, real_c = 8\<rparr> 2 = (1, 64)
   \<and> (1::nat) < 2
   \<and> pixel_color (palette 2) 2 1 64 = Inr (Some ''#ccaa66'')
   \<and> smooth_color (palette 2) 1 64
       = Inr (Some (linear_interpolate ''#773399'' ''#ccaa66'' (2 - ln 3 / ln 2)))
   \<and> fst (channels (linear_interpolate ''#773399'' ''#ccaa66'' (2 - ln 3 / ln 2))) \<noteq> Some 204
   \<and> fst (channels ''#ccaa66'') = Some 204
   \<and> smooth_color (palette 2) 1 64 \<noteq> pixel_color (palette 2) 2 1 64"
proof -
  define t :: real where "t = 2 - ln 3 / ln 2"
  have t: "0 < t" "t < 1" using log2_3 by (simp_all add: t_def)
  have e: "escape \<lparr>imaginary = 0, real_c = 8\<rparr> 2 = (1, 64)"
    using escape_one_step [of "\<lparr>imaginary = 0, real_c = 8\<rparr>" 2] by (simp add: magnitude2_def)
  have p: "pixel_color (palette 2) 2 1 64 = Inr (Some ''#ccaa66'')"
    by (simp add: pixel_color_def palette2)
  have f: "\<lfloor>t\<rfloor> = 0" using t by linarith
  have r: "js_rem1 t = t" using t f by (simp add: js_rem1_def)
  have s: "smooth_color (palette 2) 1 64 = Inr (Some (linear_interpolate ''#773399'' ''#ccaa66'' t))"
    using f r by (simp add: smooth_color_def normalized_count_64 palette2 t_def [symmetric])
  have c1: "is_color ''#773399''" and c2: "is_color ''#ccaa66''"
    by (simp_all add: is_color_def is_hex_def digit_val_def)
  have ch1: "channels ''#773399'' = (Some 119, Some 51, Some 153)"
    and ch2: "channels ''#ccaa66'' = (Some 204, Some 170, Some 102)"
    by (simp_all add: channels_def substring_def parseInt16_def js_whitespace_def digit_val_def
        hex_value_def)
  have "channels (linear_interpolate ''#773399'' ''#ccaa66'' t) =
      (Some \<lfloor>\<bar>real_of_int 119 + t * (real_of_int 204 - real_of_int 119)\<bar>\<rfloor>,
       Some \<lfloor>\<bar>real_of_int 51 + t * (real_of_int 170 - real_of_int 51)\<bar>\<rfloor>,
       Some \<lfloor>\<bar>real_of_int 153 + t * (real_of_int 102 - real_of_int 153)\<bar>\<rfloor>)"
    using linear_interpolate_floor [OF c1 c2 ch1 ch2, of t] t by simp
  then have red: "fst (channels (linear_interpolate ''#773399'' ''#ccaa66'' t))
      = Some \<lfloor>\<bar>119 + t * 85\<bar>\<rfloor>" by simp
  have "\<bar>119 + t * 85\<bar> < 204" using t by simp
  then have "\<lfloor>\<bar>119 + t * 85\<bar>\<rfloor> < 204" by linarith
  then have "\<lfloor>\<bar>119 + t * 85\<bar>\<rfloor> \<noteq> 204" by linarith
  with red have lt: "fst (channels (linear_interpolate ''#773399'' ''#ccaa66'' t)) \<noteq> Some 204"
    by simp
  have ne: "linear_interpolate ''#773399'' ''#ccaa66'' t \<noteq> ''#ccaa66''"
    using lt ch2 by auto
  from e p s lt ch2 ne show ?thesis unfolding t_def by simp
qed

lemma pixel_constant_mirrored:
  assumes "0 < width" and "rxmin < rxmax" and "0 \<le> x" and "x < int width"
  shows "- rxmax \<le> real_c (pixel_constant (graph_session width height n rxmin rxmax rymin rymax) x y)"
    and "real_c (pixel_constant (graph_session width height n rxmin rxmax rymin rymax) x y) < - rxmin"
proof -
  let ?c = "real_c (pixel_constant (graph_session width height n rxmin rxmax rymin rymax) x y)"
  have c: "?c = (rxmax - rxmin) * (real_of_int x / real width) - rxmax"
    by (simp add: pixel_constant_def graph_session_def Let_def)
  have q: "0 \<le> real_of_int x / real width" "real_of_int x / real width < 1"
    using assms by simp_all
  have "0 \<le> (rxmax - rxmin) * (real_of_int x / real width)"
    by (rule mult_nonneg_nonneg) (use assms(2) q(1) in simp_all)
  then show "- rxmax \<le> ?c" unfolding c by simp
  have "(rxmax - rxmin) * (real_of_int x / real width) < (rxmax - rxmin) * 1"
    by (rule mult_strict_left_mono [OF q(2)]) (use assms(2) in simp)
  then show "?c < - rxmin" unfolding c by simp
qed

text \<open>
  C2 fails on the code. On a 40 by 20 canvas with the region \<open>[1, 2] x [1, 2]\<close>, the
  point of pixel \<open>(0, 0)\<close> is \<open>(-2, -2)\<close>, outside the region on both axes: \<open>graph\<close>
  computes \<open>xf*x - rxmax\<close> and \<open>yf*y - rymax\<close>, so the points it draws are those of the
  region mirrored through the origin (lemma \<open>pixel_constant_mirrored\<close>), not those of
  the region.
\<close>

theorem pixel_constant_outside_region:
  "pixel_constant (graph_session 40 20 100 1 2 1 2) 0 0 = \<lparr>imaginary = - 2, real_c = - 2\<rparr>
   \<and> \<not> (1 \<le> real_c (pixel_constant (graph_session 40 20 100 1 2 1 2) 0 0))
   \<and> \<not> (1 \<le> imaginary (pixel_constant (graph_session 40 20 100 1 2 1 2) 0 0))"
  by (simp add: pixel_constant_def graph_session_def Let_def)

section \<open>Properties of the render session\<close>














lemma run_zero_width:
  assumes "xd s = 0" and "xcurr cur < xdiff s"
  shows "\<not> fst (run s k cur)"
proof (induction k)
  case 0
  then show ?case by simp
next
  case (Suc k)
  have "tick s cur = (Drawn, cur, [ClearRect (xcurr cur) (ycurr cur) 0 (yd s)])"
    using assms by (simp add: tick_def tile_points_def)
  with Suc show ?case by (simp add: split_beta)
qed

lemma escape_budget_1: "fst (escape c 1) = 1"
  unfolding escape_def
  by (subst escape_loop.simps, simp add: threshold_def Let_def, subst escape_loop.simps, simp)

lemma pixel_budget_1:
  assumes "max_iter s = 1" and "colors s = palette 1"
  shows "pixel s x y = Inr (Some ''#000000'')"
proof -
  obtain count m where e: "escape (pixel_constant s x y) 1 = (count, m)"
    by (cases "escape (pixel_constant s x y) 1")
  with escape_budget_1 [of "pixel_constant s x y"] have "count = 1" by simp
  with e assms palette_black [of 1] show ?thesis
    by (simp add: pixel_def pixel_color_def)
qed








section \<open>Properties of the timers\<close>

lemma tick_budget_1:
  "tick (graph_session 40 20 (Suc 0) rxmin rxmax rymin rymax) \<lparr>xcurr = 0, ycurr = 0\<rparr> =
    (Drawn, \<lparr>xcurr = 1, ycurr = 0\<rparr>, [ClearRect 0 0 1 1, FillRect 0 0 1 1 (Some ''#000000'')])"
proof -
  define s where "s = graph_session 40 20 (Suc 0) rxmin rxmax rymin rymax"
  have f: "xdiff s = 40" "ydiff s = 20" "xd s = 1" "yd s = 1" "ptw s = 1"
    "max_iter s = 1" "colors s = palette 1"
    by (simp_all add: s_def graph_session_def round_def)
  have p: "pixel s x y = Inr (Some ''#000000'')" for x y
    by (rule pixel_budget_1) (simp_all add: f)
  have "tick s \<lparr>xcurr = 0, ycurr = 0\<rparr> =
    (Drawn, \<lparr>xcurr = 1, ycurr = 0\<rparr>, [ClearRect 0 0 1 1, FillRect 0 0 1 1 (Some ''#000000'')])"
    by (simp add: tick_def f tile_points_def p Let_def)
  then show ?thesis unfolding s_def .
qed

text \<open>
  C6 fails on the code. \<open>graph\<close> is called for a 40 by 20 canvas and the timer of the
  session (id 0) fires once: the session clears and fills its first subdivision. Then
  \<open>graph\<close> is called again for the same canvas. The first timer is still live after
  this second call, and when it fires again the first session clears and fills a
  subdivision once more. The comment on the callback says it draws ``until entire
  canvas is drawn or, until graph is called again''; nothing in \<open>graph\<close> stops the
  earlier timer.
\<close>

theorem superseded_session_still_writes:
  "writes_of 0 (happen_all [Graph 40 20 1 1 2 1 2, Fire 0, Graph 40 20 1 1 2 1 2] new_page)
       = [ClearRect 0 0 1 1, FillRect 0 0 1 1 (Some ''#000000'')]
   \<and> map fst (timers (happen_all [Graph 40 20 1 1 2 1 2, Fire 0, Graph 40 20 1 1 2 1 2] new_page))
       = [0, 1]
   \<and> writes_of 0
        (happen_all [Graph 40 20 1 1 2 1 2, Fire 0, Graph 40 20 1 1 2 1 2, Fire 0] new_page)
       = [ClearRect 0 0 1 1, FillRect 0 0 1 1 (Some ''#000000''),
          ClearRect 0 0 1 1, FillRect 0 0 1 1 (Some ''#000000'')]"
  by (simp add: happen_all_def graph_def new_page_def fire_def writes_of_def Let_def
      tick_budget_1)

end
